theory Spec2Isabelle
  imports Main "HOL-Library.Sublist"
begin

section \<open>Python string operations used by the provider\<close>

text \<open>
  A Python \<open>str\<close> is modelled as a HOL \<^typ>\<open>string\<close>: one \<^typ>\<open>char\<close> per code
  point, so the model covers the code points below 256. A character is ASCII when
  its code is below 128.
\<close>

definition is_ascii :: "char \<Rightarrow> bool" where
  "is_ascii c = (of_char c < (128 :: nat))"

text \<open>\<^verbatim>\<open>s.startswith(p)\<close>\<close>

definition startswith :: "string \<Rightarrow> string \<Rightarrow> bool" where
  "startswith s p = prefix p s"

text \<open>
  \<^verbatim>\<open>s.replace(old, new)\<close>: the occurrences of \<open>old\<close> are found from left to right
  without overlap, and the scan resumes behind each occurrence, so the text put in
  is not scanned again. With an empty \<open>old\<close> Python puts \<open>new\<close> before every
  character and at the end.
\<close>

fun replace :: "string \<Rightarrow> string \<Rightarrow> string \<Rightarrow> string" where
  "replace [] old new = (if old = [] then new else [])"
| "replace (c # cs) old new =
     (if old = [] then new @ c # replace cs old new
      else if prefix old (c # cs) then new @ replace (drop (length old - 1) cs) old new
      else c # replace cs old new)"

text \<open>\<^verbatim>\<open>s.strip(chars)\<close>: drops the leading and the trailing characters that are in \<open>chars\<close>.\<close>

definition strip :: "string \<Rightarrow> string \<Rightarrow> string" where
  "strip s chars =
     rev (dropWhile (\<lambda>c. c \<in> set chars) (rev (dropWhile (\<lambda>c. c \<in> set chars) s)))"

section \<open>Errors, files and the outside world\<close>

text \<open>
  The module raises nothing itself and catches nothing: an exception of a
  collaborator ends the function that called it and reaches the caller unchanged.
\<close>

datatype error =
  RequestFailed | Unparseable | ConversionFailed | RenderFailed | InvalidURL | IOFailed

text \<open>The parts of a parsed URL that the module reads.\<close>

record url_parts =
  scheme :: string
  netloc :: string
  path :: string

text \<open>
  A file holds text (written through \<^verbatim>\<open>open(p, "w")\<close>) or bytes (the PDF, written by
  the renderer through \<^verbatim>\<open>open(p, "wb")\<close>).
\<close>

datatype content = Text string | Bytes string

text \<open>The first \<open>n\<close> characters or bytes of what was to be written.\<close>

fun first_part :: "nat \<Rightarrow> content \<Rightarrow> content" where
  "first_part n (Text s) = Text (take n s)"
| "first_part n (Bytes s) = Bytes (take n s)"

text \<open>
  How the file system answers a write of some data to a path, which is
  \<^verbatim>\<open>open(path, mode)\<close> followed by the write and the close: the data is written; or
  the file cannot be opened, and nothing changes; or the file is opened, which
  empties it, and the write breaks off with an error after a number of characters.
\<close>

datatype write_outcome = WriteOk | OpenFails error | WriteFails error nat

text \<open>
  What a run hands to the outside, in order: requests to the network, the text
  given to the markdown renderer, the HTML given to the PDF renderer, what it put
  into a file (all of the data, or the part written before the write broke off)
  and log lines.
\<close>

datatype event =
    PageRequest string
  | ContentTypeRequest string
  | MarkdownInput string
  | RenderInput string
  | FileWrite string content
  | LogInfo string

text \<open>
  The world a call runs in: what the network answers at this moment (a page
  fetch gives the text or fails; a content-type lookup gives the type or
  \<open>None\<close>; \<open>resources\<close> is weasyprint's \<^verbatim>\<open>default_url_fetcher\<close>), the file system, and
  the trace of events so far. Of the file system: \<open>resolve\<close> gives the file that a
  path names from the working directory, so that two paths of one file
  (\<^verbatim>\<open>./paper.html\<close> and \<^verbatim>\<open>paper.html\<close>) resolve to the same; \<open>files\<close> gives the content of
  each file that exists; \<open>disk\<close> gives the outcome of a write.
\<close>

record world =
  pages :: "string \<Rightarrow> error + string"
  content_types :: "string \<Rightarrow> string option"
  resources :: "string \<Rightarrow> error + string"
  resolve :: "string \<Rightarrow> string"
  files :: "string \<Rightarrow> content option"
  disk :: "string \<Rightarrow> content \<Rightarrow> write_outcome"
  trace :: "event list"

text \<open>
  The library functions the module calls, taken as parameters:
  \<^item> \<open>urlparse\<close>, \<open>urlsplit\<close>: \<^verbatim>\<open>urllib.parse\<close> (both raise \<^verbatim>\<open>ValueError\<close> on some inputs);
  \<^item> \<open>doc_title\<close>, \<open>doc_summary\<close>: \<^verbatim>\<open>readability.Document(text).title()\<close> and
    \<^verbatim>\<open>.summary(html_partial=True)\<close>;
  \<^item> \<open>h2t_handle\<close>: \<^verbatim>\<open>html2text.HTML2Text().handle\<close> with \<^verbatim>\<open>wrap_links = False\<close>;
  \<^item> \<open>markdown\<close>: \<^verbatim>\<open>markdown.markdown\<close>;
  \<^item> \<open>render\<close>: weasyprint's rendering of an HTML string to the bytes of a PDF, with
    the module's fixed stylesheet and font configuration, given the URL fetcher for
    embedded resources;
  \<^item> \<open>clean_string\<close> (of the package's \<^verbatim>\<open>utils\<close>), \<open>titlecase\<close>: functions from
    strings to strings;
  \<^item> \<open>unidecode_table\<close>: the transliteration table of \<^verbatim>\<open>unidecode\<close>.
\<close>

record libs =
  urlparse :: "string \<Rightarrow> error + url_parts"
  urlsplit :: "string \<Rightarrow> error + url_parts"
  doc_title :: "string \<Rightarrow> error + string"
  doc_summary :: "string \<Rightarrow> error + string"
  h2t_handle :: "string \<Rightarrow> error + string"
  markdown :: "string \<Rightarrow> error + string"
  render :: "(string \<Rightarrow> error + string) \<Rightarrow> string \<Rightarrow> error + string"
  clean_string :: "string \<Rightarrow> string"
  titlecase :: "string \<Rightarrow> string"
  unidecode_table :: "char \<Rightarrow> string"

subsection \<open>Computations that may fail and that change the world\<close>

type_synonym 'a prog = "world \<Rightarrow> (error + 'a) \<times> world"

definition ret :: "'a \<Rightarrow> 'a prog" where
  "ret x w = (Inr x, w)"

definition lift :: "error + 'a \<Rightarrow> 'a prog" where
  "lift r w = (r, w)"

definition and_then :: "'a prog \<Rightarrow> ('a \<Rightarrow> 'b prog) \<Rightarrow> 'b prog" where
  "and_then m f w = (case m w of (Inl e, w') \<Rightarrow> (Inl e, w') | (Inr x, w') \<Rightarrow> f x w')"

definition emit :: "event \<Rightarrow> unit prog" where
  "emit e w = (Inr (), w\<lparr>trace := trace w @ [e]\<rparr>)"

text \<open>
  \<^verbatim>\<open>with open(p, mode) as fp: fp.write(c)\<close>. What reaches the file replaces its
  content; an error of the file system ends the computation.
\<close>

definition put_file :: "string \<Rightarrow> content \<Rightarrow> world \<Rightarrow> world" where
  "put_file p c w =
     w\<lparr>files := (files w)(resolve w p := Some c), trace := trace w @ [FileWrite p c]\<rparr>"

definition write_file :: "string \<Rightarrow> content \<Rightarrow> unit prog" where
  "write_file p c w =
     (case disk w p c of
        WriteOk \<Rightarrow> (Inr (), put_file p c w)
      | OpenFails e \<Rightarrow> (Inl e, w)
      | WriteFails e n \<Rightarrow> (Inl e, put_file p (first_part n c) w))"

text \<open>The events a run added, and the file writes among a list of events.\<close>

definition new_events :: "world \<Rightarrow> world \<Rightarrow> event list" where
  "new_events w w' = drop (length (trace w)) (trace w')"

fun file_writes :: "event list \<Rightarrow> (string \<times> content) list" where
  "file_writes [] = []"
| "file_writes (FileWrite p c # es) = (p, c) # file_writes es"
| "file_writes (e # es) = file_writes es"

fun markdown_inputs :: "event list \<Rightarrow> string list" where
  "markdown_inputs [] = []"
| "markdown_inputs (MarkdownInput a # es) = a # markdown_inputs es"
| "markdown_inputs (e # es) = markdown_inputs es"

fun render_inputs :: "event list \<Rightarrow> string list" where
  "render_inputs [] = []"
| "render_inputs (RenderInput h # es) = h # render_inputs es"
| "render_inputs (e # es) = render_inputs es"

fun content_type_requests :: "event list \<Rightarrow> string list" where
  "content_type_requests [] = []"
| "content_type_requests (ContentTypeRequest u # es) = u # content_type_requests es"
| "content_type_requests (e # es) = content_type_requests es"

subsection \<open>The collaborators of the package\<close>

text \<open>
  Modelled from the spec: \<^verbatim>\<open>get_page_with_retry\<close> of the package's \<^verbatim>\<open>utils\<close>, which is
  not among the sources. It gives the text of the page, or its failure reaches
  the caller once the retries are used up.
\<close>

definition get_page_with_retry :: "string \<Rightarrow> string prog" where
  "get_page_with_retry url w = (pages w url, w\<lparr>trace := trace w @ [PageRequest url]\<rparr>)"

text \<open>
  Modelled from the spec: \<^verbatim>\<open>get_content_type_with_retry\<close> of the package's \<^verbatim>\<open>utils\<close>,
  which is not among the sources. It gives the content type, or \<open>None\<close> when the
  lookup has no result; it does not raise.
\<close>

definition get_content_type_with_retry :: "string \<Rightarrow> string option prog" where
  "get_content_type_with_retry url w =
     (Inr (content_types w url), w\<lparr>trace := trace w @ [ContentTypeRequest url]\<rparr>)"

text \<open>\<^verbatim>\<open>logger.info(msg)\<close>\<close>

definition logger_info :: "string \<Rightarrow> unit prog" where
  "logger_info msg = emit (LogInfo msg)"

text \<open>
  Modelled from the spec: \<^verbatim>\<open>unidecode.unidecode\<close>, which transliterates the non-ASCII
  characters: an ASCII character is kept, every other one is replaced by its
  entry in the table.
\<close>

definition unidecode :: "(char \<Rightarrow> string) \<Rightarrow> string \<Rightarrow> string" where
  "unidecode table s = concat (map (\<lambda>c. if is_ascii c then [c] else table c) s)"

text \<open>
  \<^verbatim>\<open>markdown.markdown(article)\<close> and the write of the PDF,
  \<^verbatim>\<open>weasyprint.HTML(string=html, url_fetcher=fetcher).write_pdf(filename, ...)\<close>:
  weasyprint renders the whole document in memory and only then opens the target
  file and copies the bytes into it, so a failed rendering touches no file and the
  write of the bytes is a write like any other.
\<close>

definition markdown_markdown :: "libs \<Rightarrow> string \<Rightarrow> string prog" where
  "markdown_markdown lb article =
     and_then (emit (MarkdownInput article)) (\<lambda>_. lift (markdown lb article))"

definition write_pdf :: "libs \<Rightarrow> (string \<Rightarrow> error + string) \<Rightarrow> string \<Rightarrow> string \<Rightarrow> unit prog" where
  "write_pdf lb fetcher html filename =
     and_then (emit (RenderInput html)) (\<lambda>_.
     and_then (lift (render lb fetcher html)) (\<lambda>pdf.
     write_file filename (Bytes pdf)))"

section \<open>The provider\<close>

text \<open>\<^verbatim>\<open>my_fetcher(url)\<close>, over weasyprint's default fetcher.\<close>

definition my_fetcher :: "(string \<Rightarrow> 'r) \<Rightarrow> string \<Rightarrow> 'r" where
  "my_fetcher default_url_fetcher url =
     default_url_fetcher
       (if startswith url ''//'' then ''https:'' @ url
        else if startswith url ''file:///'' then ''https:'' @ drop (length ''file:/'') url
        else url)"

text \<open>\<^verbatim>\<open>HTMLInformer.get_filename(abs_url)\<close>\<close>

definition get_filename :: "libs \<Rightarrow> string \<Rightarrow> string prog" where
  "get_filename lb abs_url =
     and_then (get_page_with_retry abs_url) (\<lambda>request_text.
     and_then (lift (doc_title lb request_text)) (\<lambda>title.
       let title = clean_string lb title;
           title = titlecase lb title;
           title = replace title '' '' ''_'';
           title = clean_string lb title;
           name = strip title ''_'' @ ''.pdf'';
           name = unidecode (unidecode_table lb) name
       in and_then (logger_info (''Created filename: '' @ name)) (\<lambda>_. ret name)))"

text \<open>\<^verbatim>\<open>HTML.get_abs_pdf_urls(url)\<close>\<close>

definition get_abs_pdf_urls :: "string \<Rightarrow> string \<times> string" where
  "get_abs_pdf_urls url = (url, url)"

text \<open>
  \<^verbatim>\<open>HTML.retrieve_pdf(pdf_url, filename)\<close>; \<open>debug\<close> is the provider's \<^verbatim>\<open>self.debug\<close>. The
  two replacements that fix the relative URLs are the function \<open>fix_relative_urls\<close>.
\<close>

definition fix_relative_urls :: "string \<Rightarrow> string \<Rightarrow> string" where
  "fix_relative_urls base_url html_article =
     (let html_article = replace html_article '' src=\"//'' '' src=\"https://'';
          html_article = replace html_article '' src=\"/'' ('' src=\"'' @ base_url @ ''/'')
      in html_article)"

definition retrieve_pdf :: "libs \<Rightarrow> bool \<Rightarrow> string \<Rightarrow> string \<Rightarrow> unit prog" where
  "retrieve_pdf lb debug pdf_url filename =
     and_then (get_page_with_retry pdf_url) (\<lambda>request_text.
     and_then (lift (doc_title lb request_text)) (\<lambda>title.
     and_then (lift (doc_summary lb request_text)) (\<lambda>raw_html.
     and_then (lift (h2t_handle lb raw_html)) (\<lambda>text.
       let article = ''# '' @ title @ ''\<newline>\<newline>'' @ text in
     and_then (lift (urlsplit lb pdf_url)) (\<lambda>parts.
       let base_url = scheme parts @ ''://'' @ netloc parts in
     and_then (markdown_markdown lb article) (\<lambda>html_article.
       let html_article = fix_relative_urls base_url html_article in
     and_then (if debug then write_file ''./paper.html'' (Text html_article) else ret ()) (\<lambda>_.
     (\<lambda>w. write_pdf lb (my_fetcher (resources w)) html_article filename w))))))))"

text \<open>\<^verbatim>\<open>HTML.validate(src)\<close>\<close>

definition validate :: "libs \<Rightarrow> string \<Rightarrow> bool prog" where
  "validate lb src =
     and_then (lift (urlparse lb src)) (\<lambda>parsed.
       if \<not> (scheme parsed \<noteq> [] \<and> netloc parsed \<noteq> [] \<and> path parsed \<noteq> []) then ret False
       else
     and_then (get_content_type_with_retry src) (\<lambda>ct.
       case ct of None \<Rightarrow> ret False | Some ct \<Rightarrow> ret (startswith ct ''text/html'')))"

section \<open>The URL rewriting, as the specification words it\<close>

text \<open>
  The specification asks for one rewriting of the HTML string: every occurrence of
  \<^verbatim>\<open> src="//\<close> becomes \<^verbatim>\<open> src="https://\<close>, and every occurrence of \<^verbatim>\<open> src="/\<close> that
  is root-relative and not protocol-relative becomes \<^verbatim>\<open> src="{base}/\<close>. This is the
  single pass from left to right that does so; it is compared with the two
  replacements of the code below.
\<close>

fun rewrite_urls_spec :: "string \<Rightarrow> string \<Rightarrow> string" where
  "rewrite_urls_spec base [] = []"
| "rewrite_urls_spec base (c # cs) =
     (if prefix '' src=\"//'' (c # cs)
        then '' src=\"https://'' @ rewrite_urls_spec base (drop 7 cs)
      else if prefix '' src=\"/'' (c # cs)
        then '' src=\"'' @ base @ ''/'' @ rewrite_urls_spec base (drop 6 cs)
      else c # rewrite_urls_spec base cs)"

section \<open>A sample page\<close>

text \<open>
  Concrete collaborators and a concrete world, on which the functions above are
  evaluated: a page at \<^verbatim>\<open>https://site.com/post\<close> whose article holds a root-relative
  and a protocol-relative image.
\<close>

definition sample_url :: string where
  "sample_url = ''https://site.com/post''"

definition sample_parse :: "string \<Rightarrow> error + url_parts" where
  "sample_parse s =
     (if s = ''https://site.com/post''
        then Inr \<lparr>scheme = ''https'', netloc = ''site.com'', path = ''/post''\<rparr>
      else if s = ''site.com/post''
        then Inr \<lparr>scheme = [], netloc = [], path = ''site.com/post''\<rparr>
      else Inl InvalidURL)"

definition sample_html :: string where
  "sample_html = ''<p><img src=\"/a.png\" /> <img src=\"//cdn.org/b.png\" /></p>''"

definition sample_libs :: libs where
  "sample_libs =
     \<lparr>urlparse = sample_parse,
      urlsplit = sample_parse,
      doc_title = (\<lambda>page. Inr ''Hello World''),
      doc_summary = (\<lambda>page. Inr ''<div>Body</div>''),
      h2t_handle = (\<lambda>fragment. Inr ''Body''),
      markdown = (\<lambda>article. Inr sample_html),
      render = (\<lambda>fetcher html. Inr ''%PDF-1.7''),
      clean_string = (\<lambda>s. s),
      titlecase = (\<lambda>s. s),
      unidecode_table = (\<lambda>c. ''?'')\<rparr>"

definition sample_world :: world where
  "sample_world =
     \<lparr>pages = (\<lambda>u. if u = ''https://site.com/post'' then Inr ''<html>...</html>''
                     else Inl RequestFailed),
      content_types = (\<lambda>u. if u = ''https://site.com/post'' then Some ''text/html; charset=utf-8''
                             else None),
      resources = (\<lambda>u. Inl RequestFailed),
      resolve = (\<lambda>p. if prefix ''./'' p then drop 2 p else p),
      files = (\<lambda>p. None),
      disk = (\<lambda>p c. WriteOk),
      trace = []\<rparr>"

section \<open>Properties\<close>

subsection \<open>Running the computations\<close>

lemmas prog_defs = and_then_def lift_def ret_def emit_def write_file_def put_file_def
  get_page_with_retry_def get_content_type_with_retry_def logger_info_def
  markdown_markdown_def write_pdf_def

lemmas sample_defs = sample_url_def sample_parse_def sample_html_def sample_libs_def
  sample_world_def

lemma retrieve_pdf_run:
  assumes "pages w pdf_url = Inr request_text"
    and "doc_title lb request_text = Inr title"
    and "doc_summary lb request_text = Inr raw_html"
    and "h2t_handle lb raw_html = Inr text"
    and "urlsplit lb pdf_url = Inr parts"
  shows "retrieve_pdf lb debug pdf_url filename w =
    (let article = ''# '' @ title @ ''\<newline>\<newline>'' @ text;
         w1 = w\<lparr>trace := trace w @ [PageRequest pdf_url, MarkdownInput article]\<rparr>
     in case markdown lb article of
          Inl e \<Rightarrow> (Inl e, w1)
        | Inr html \<Rightarrow>
            let html_article = fix_relative_urls (scheme parts @ ''://'' @ netloc parts) html;
                dump = Text html_article
            in case (if debug then disk w ''./paper.html'' dump else WriteOk) of
                 OpenFails e \<Rightarrow> (Inl e, w1)
               | WriteFails e n \<Rightarrow>
                   (Inl e,
                    w1\<lparr>files := (files w)(resolve w ''./paper.html'' := Some (first_part n dump)),
                       trace := trace w1 @ [FileWrite ''./paper.html'' (first_part n dump)]\<rparr>)
               | WriteOk \<Rightarrow>
                   let w2 = (if debug then
                               w1\<lparr>files := (files w)(resolve w ''./paper.html'' := Some dump),
                                  trace := trace w1 @ [FileWrite ''./paper.html'' dump]\<rparr>
                             else w1);
                       w3 = w2\<lparr>trace := trace w2 @ [RenderInput html_article]\<rparr>
                   in case render lb (my_fetcher (resources w)) html_article of
                        Inl e \<Rightarrow> (Inl e, w3)
                      | Inr pdf \<Rightarrow>
                          (case disk w filename (Bytes pdf) of
                             OpenFails e \<Rightarrow> (Inl e, w3)
                           | WriteFails e n \<Rightarrow>
                               (Inl e,
                                w3\<lparr>files := (files w2)(resolve w filename :=
                                       Some (Bytes (take n pdf))),
                                   trace := trace w3 @ [FileWrite filename (Bytes (take n pdf))]\<rparr>)
                           | WriteOk \<Rightarrow>
                               (Inr (),
                                w3\<lparr>files := (files w2)(resolve w filename := Some (Bytes pdf)),
                                   trace := trace w3 @ [FileWrite filename (Bytes pdf)]\<rparr>)))"
  using assms
  by (simp add: retrieve_pdf_def prog_defs Let_def split: sum.splits write_outcome.splits)

lemma retrieve_pdf_early_failure:
  "pages w pdf_url = Inl e \<Longrightarrow>
     retrieve_pdf lb debug pdf_url filename w = (Inl e, w\<lparr>trace := trace w @ [PageRequest pdf_url]\<rparr>)"
  "pages w pdf_url = Inr request_text \<Longrightarrow> doc_title lb request_text = Inl e \<Longrightarrow>
     retrieve_pdf lb debug pdf_url filename w = (Inl e, w\<lparr>trace := trace w @ [PageRequest pdf_url]\<rparr>)"
  "pages w pdf_url = Inr request_text \<Longrightarrow> doc_title lb request_text = Inr title \<Longrightarrow>
   doc_summary lb request_text = Inl e \<Longrightarrow>
     retrieve_pdf lb debug pdf_url filename w = (Inl e, w\<lparr>trace := trace w @ [PageRequest pdf_url]\<rparr>)"
  "pages w pdf_url = Inr request_text \<Longrightarrow> doc_title lb request_text = Inr title \<Longrightarrow>
   doc_summary lb request_text = Inr raw_html \<Longrightarrow> h2t_handle lb raw_html = Inl e \<Longrightarrow>
     retrieve_pdf lb debug pdf_url filename w = (Inl e, w\<lparr>trace := trace w @ [PageRequest pdf_url]\<rparr>)"
  "pages w pdf_url = Inr request_text \<Longrightarrow> doc_title lb request_text = Inr title \<Longrightarrow>
   doc_summary lb request_text = Inr raw_html \<Longrightarrow> h2t_handle lb raw_html = Inr text \<Longrightarrow>
   urlsplit lb pdf_url = Inl e \<Longrightarrow>
     retrieve_pdf lb debug pdf_url filename w = (Inl e, w\<lparr>trace := trace w @ [PageRequest pdf_url]\<rparr>)"
  by (simp_all add: retrieve_pdf_def prog_defs Let_def)

lemma retrieve_pdf_frame:
  "q \<noteq> resolve w filename \<Longrightarrow> \<not> debug \<or> q \<noteq> resolve w ''./paper.html'' \<Longrightarrow>
     files (snd (retrieve_pdf lb debug pdf_url filename w)) q = files w q"
  by (auto simp: retrieve_pdf_def prog_defs Let_def split: sum.splits write_outcome.splits)

lemma retrieve_pdf_output_on_failure:
  assumes "fst (retrieve_pdf lb debug pdf_url filename w) = Inl e"
    and "\<not> debug \<or> resolve w filename \<noteq> resolve w ''./paper.html''"
    and "\<forall>c err n. disk w filename c \<noteq> WriteFails err n"
  shows "files (snd (retrieve_pdf lb debug pdf_url filename w)) (resolve w filename) =
           files w (resolve w filename)"
proof (cases debug)
  case True
  with assms show ?thesis
    by (auto simp: retrieve_pdf_def prog_defs Let_def split: sum.splits write_outcome.splits)
next
  case False
  with assms(1,3) show ?thesis
    by (auto simp: retrieve_pdf_def prog_defs Let_def split: sum.splits write_outcome.splits)
qed

lemma retrieve_pdf_written:
  "\<forall>(p, c) \<in> set (file_writes (new_events w (snd (retrieve_pdf lb debug pdf_url filename w)))).
      (debug \<and> p = ''./paper.html'' \<and> (\<exists>h. c = Text h)) \<or>
      (p = filename \<and> (\<exists>pdf. c = Bytes pdf))"
  by (simp add: retrieve_pdf_def prog_defs new_events_def Let_def
      split: sum.splits write_outcome.splits)

lemma get_filename_run:
  assumes "pages w abs_url = Inr request_text"
    and "doc_title lb request_text = Inr title"
  shows "get_filename lb abs_url w =
    (let name = unidecode (unidecode_table lb)
           (strip (clean_string lb (replace (titlecase lb (clean_string lb title)) '' '' ''_'')) ''_''
             @ ''.pdf'')
     in (Inr name,
         w\<lparr>trace := trace w @ [PageRequest abs_url, LogInfo (''Created filename: '' @ name)]\<rparr>))"
  using assms by (simp add: get_filename_def prog_defs Let_def)

lemma get_filename_early_failure:
  "pages w abs_url = Inl e \<Longrightarrow> fst (get_filename lb abs_url w) = Inl e"
  "pages w abs_url = Inr request_text \<Longrightarrow> doc_title lb request_text = Inl e \<Longrightarrow>
     fst (get_filename lb abs_url w) = Inl e"
  by (simp_all add: get_filename_def prog_defs)

lemma unidecode_ascii: "\<forall>c \<in> set s. is_ascii c \<Longrightarrow> unidecode table s = s"
  by (induction s) (simp_all add: unidecode_def)

lemma unidecode_append: "unidecode table (s @ t) = unidecode table s @ unidecode table t"
  by (simp add: unidecode_def)

lemma unidecode_pdf: "unidecode table ''.pdf'' = ''.pdf''"
  by (simp add: unidecode_def is_ascii_def)

subsection \<open>Replacing substrings\<close>

text \<open>
  A replacement acts at an occurrence, steps over a position without one, and
  leaves the first characters of a string alone as long as the pattern and what
  replaces it agree there.
\<close>

lemma prefix_iff_take: "prefix p s \<longleftrightarrow> take (length p) s = p"
proof
  assume "prefix p s"
  then show "take (length p) s = p" by (auto simp: prefix_def)
next
  assume "take (length p) s = p"
  then show "prefix p s" by (metis take_is_prefix)
qed

lemma replace_at_occurrence:
  assumes "old \<noteq> []"
  shows "replace (old @ r) old new = new @ replace r old new"
proof -
  from assms obtain a as where old: "old = a # as" by (cases old) auto
  then show ?thesis by simp
qed

lemma replace_no_occurrence:
  assumes "old \<noteq> []" and "\<not> prefix old (c # cs)"
  shows "replace (c # cs) old new = c # replace cs old new"
  using assms by simp

lemma replace_Nil: "old \<noteq> [] \<Longrightarrow> replace [] old new = []"
  by simp

lemma take_replace:
  assumes "old \<noteq> []" and "take k new = take k old"
    and "k \<le> length old" and "k \<le> length new"
  shows "take k (replace s old new) = take k s"
proof (induction s rule: length_induct)
  case (1 s)
  show ?case
  proof (cases "prefix old s")
    case True
    then obtain r where s: "s = old @ r" by (auto simp: prefix_def)
    show ?thesis
      using assms by (simp add: s replace_at_occurrence)
  next
    case False
    show ?thesis
    proof (cases s)
      case Nil
      with assms show ?thesis by simp
    next
      case (Cons c cs)
      have step: "replace (c # cs) old new = c # replace cs old new"
        using False assms(1) unfolding Cons by (rule replace_no_occurrence[rotated])
      have ih: "take k (replace cs old new) = take k cs"
        using 1 Cons by simp
      have "take (k - 1) (take k (replace cs old new)) = take (k - 1) (take k cs)"
        using ih by simp
      then have "take (k - 1) (replace cs old new) = take (k - 1) cs"
        by (simp add: min_def)
      then have "take k (c # replace cs old new) = take k (c # cs)"
        by (cases k) simp_all
      then show ?thesis
        by (simp only: Cons step)
    qed
  qed
qed

lemma take_Suc_replace:
  assumes "old \<noteq> []" and "take k new = take k old"
    and "k \<le> length old" and "k \<le> length new"
    and "\<not> prefix old s"
  shows "take (Suc k) (replace s old new) = take (Suc k) s"
proof (cases s)
  case Nil
  with assms show ?thesis by simp
next
  case (Cons c cs)
  have "replace s old new = c # replace cs old new"
    using assms(5,1) unfolding Cons by (rule replace_no_occurrence[rotated])
  then have "take (Suc k) (replace s old new) = c # take k (replace cs old new)"
    by simp
  also have "\<dots> = c # take k cs"
    by (simp only: take_replace [OF assms(1-4), of cs])
  also have "\<dots> = take (Suc k) s"
    by (simp add: Cons)
  finally show ?thesis .
qed


declare replace.simps [simp del]

lemma replace_root_over_https:
  "replace ('' src=\"https://'' @ t) '' src=\"/'' new = '' src=\"https://'' @ replace t '' src=\"/'' new"
  by (simp add: replace.simps)

lemma replace_proto_over_root:
  assumes "\<not> prefix ''/'' r"
  shows "replace ('' src=\"/'' @ r) '' src=\"//'' new = '' src=\"/'' @ replace r '' src=\"//'' new"
  using assms by (simp add: replace.simps)

lemma root_prefix_after_proto:
  assumes "\<not> prefix '' src=\"//'' s"
  shows "prefix '' src=\"/'' (replace s '' src=\"//'' '' src=\"https://'') \<longleftrightarrow> prefix '' src=\"/'' s"
proof -
  have "take (Suc 6) (replace s '' src=\"//'' '' src=\"https://'') = take (Suc 6) s"
    by (rule take_Suc_replace) (use assms in simp_all)
  then have t7: "take 7 (replace s '' src=\"//'' '' src=\"https://'') = take 7 s"
    by (simp add: eval_nat_numeral)
  have len: "length '' src=\"/'' = 7"
    by simp
  show ?thesis
    by (simp only: prefix_iff_take len t7)
qed

lemma spec_at_proto:
  "rewrite_urls_spec base ('' src=\"//'' @ r) = '' src=\"https://'' @ rewrite_urls_spec base r"
  by simp

lemma spec_at_root:
  assumes "\<not> prefix ''/'' r"
  shows "rewrite_urls_spec base ('' src=\"/'' @ r) = ('' src=\"'' @ base @ ''/'') @ rewrite_urls_spec base r"
  using assms by simp

lemma spec_elsewhere:
  assumes "\<not> prefix '' src=\"//'' (c # cs)" and "\<not> prefix '' src=\"/'' (c # cs)"
  shows "rewrite_urls_spec base (c # cs) = c # rewrite_urls_spec base cs"
  by (simp only: rewrite_urls_spec.simps assms if_False)

declare rewrite_urls_spec.simps [simp del]

lemma fix_relative_urls_spec:
  "fix_relative_urls base s = rewrite_urls_spec base s"
proof (induction s rule: length_induct)
  case (1 s)
  let ?R1 = "\<lambda>x. replace x '' src=\"//'' '' src=\"https://''"
  let ?R2 = "\<lambda>x. replace x '' src=\"/'' ('' src=\"'' @ base @ ''/'')"
  have unf: "\<And>x. fix_relative_urls base x = ?R2 (?R1 x)"
    by (simp add: fix_relative_urls_def)
  have ih: "\<And>x. length x < length s \<Longrightarrow> ?R2 (?R1 x) = rewrite_urls_spec base x"
    using 1 by (simp add: unf)
  show ?case
  proof (cases s)
    case Nil
    then show ?thesis by (simp add: unf replace.simps rewrite_urls_spec.simps)
  next
    case (Cons c cs)
    consider (proto) "prefix '' src=\"//'' s"
      | (root) "\<not> prefix '' src=\"//'' s" "prefix '' src=\"/'' s"
      | (other) "\<not> prefix '' src=\"//'' s" "\<not> prefix '' src=\"/'' s"
      by blast
    then show ?thesis
    proof cases
      case proto
      then obtain r where s: "s = '' src=\"//'' @ r" by (auto simp: prefix_def)
      have "?R1 s = '' src=\"https://'' @ ?R1 r"
        unfolding s by (rule replace_at_occurrence) simp
      then have "?R2 (?R1 s) = '' src=\"https://'' @ ?R2 (?R1 r)"
        by (simp only: replace_root_over_https)
      also have "?R2 (?R1 r) = rewrite_urls_spec base r"
        by (rule ih) (simp add: s)
      also have "'' src=\"https://'' @ rewrite_urls_spec base r = rewrite_urls_spec base s"
        unfolding s by (rule spec_at_proto [symmetric])
      finally show ?thesis
        by (simp only: unf)
    next
      case root
      then obtain r where s: "s = '' src=\"/'' @ r" by (auto simp: prefix_def)
      from root(1) have r: "\<not> prefix ''/'' r" by (simp add: s)
      have "?R1 s = '' src=\"/'' @ ?R1 r"
        unfolding s using r by (rule replace_proto_over_root)
      moreover have "?R2 ('' src=\"/'' @ ?R1 r) = ('' src=\"'' @ base @ ''/'') @ ?R2 (?R1 r)"
        by (rule replace_at_occurrence) simp
      ultimately have "?R2 (?R1 s) = ('' src=\"'' @ base @ ''/'') @ ?R2 (?R1 r)"
        by (simp only:)
      also have "?R2 (?R1 r) = rewrite_urls_spec base r"
        by (rule ih) (simp add: s)
      also have "('' src=\"'' @ base @ ''/'') @ rewrite_urls_spec base r = rewrite_urls_spec base s"
        unfolding s using r by (rule spec_at_root [symmetric])
      finally show ?thesis
        by (simp only: unf)
    next
      case other
      have o1: "\<not> prefix '' src=\"//'' (c # cs)"
        using other(1) unfolding Cons .
      have o2: "\<not> prefix '' src=\"/'' (c # cs)"
        using other(2) unfolding Cons .
      have r1: "?R1 (c # cs) = c # ?R1 cs"
        using _ o1 by (rule replace_no_occurrence) simp
      have "\<not> prefix '' src=\"/'' (?R1 (c # cs))"
        using o2 root_prefix_after_proto [OF o1] by blast
      then have np: "\<not> prefix '' src=\"/'' (c # ?R1 cs)"
        unfolding r1 .
      have "?R2 (c # ?R1 cs) = c # ?R2 (?R1 cs)"
        using _ np by (rule replace_no_occurrence) simp
      then have "?R2 (?R1 (c # cs)) = c # ?R2 (?R1 cs)"
        unfolding r1 .
      also have "?R2 (?R1 cs) = rewrite_urls_spec base cs"
        by (rule ih) (simp add: Cons)
      also have "c # rewrite_urls_spec base cs = rewrite_urls_spec base (c # cs)"
        using o1 o2 by (rule spec_elsewhere [symmetric])
      finally show ?thesis
        by (simp only: unf Cons)
    qed
  qed
qed


lemma prefix_append_separator:
  assumes "a \<notin> set (tl old)" and "p \<noteq> []"
  shows "prefix old (p @ a # x) \<longleftrightarrow> prefix old p"
proof
  assume "prefix old (p @ a # x)"
  then consider "prefix old p" | us where "old = p @ us" "prefix us (a # x)"
    by (auto simp: prefix_append)
  then show "prefix old p"
  proof cases
    case 1
    then show ?thesis .
  next
    case 2
    show ?thesis
    proof (cases us)
      case Nil
      with 2 show ?thesis by simp
    next
      case (Cons u us')
      with 2 have "u = a" by simp
      with 2 Cons assms obtain q qs where "p = q # qs" "old = q # qs @ a # us'"
        by (cases p) auto
      with assms(1) show ?thesis by simp
    qed
  qed
next
  assume "prefix old p"
  then show "prefix old (p @ a # x)" by (rule prefix_prefix)
qed

lemma spec_split_at_space:
  "rewrite_urls_spec base (pre @ CHR '' '' # x) =
     rewrite_urls_spec base pre @ rewrite_urls_spec base (CHR '' '' # x)"
proof (induction pre rule: length_induct)
  case (1 pre)
  let ?S = "rewrite_urls_spec base"
  let ?x = "CHR '' '' # x"
  have ih: "\<And>r. length r < length pre \<Longrightarrow> ?S (r @ ?x) = ?S r @ ?S ?x"
    using 1 by simp
  show ?case
  proof (cases pre)
    case Nil
    then show ?thesis by (simp add: rewrite_urls_spec.simps)
  next
    case (Cons c cs)
    consider (proto) "prefix '' src=\"//'' pre"
      | (root) "\<not> prefix '' src=\"//'' pre" "prefix '' src=\"/'' pre"
      | (other) "\<not> prefix '' src=\"//'' pre" "\<not> prefix '' src=\"/'' pre"
      by blast
    then show ?thesis
    proof cases
      case proto
      then obtain r where p: "pre = '' src=\"//'' @ r" by (auto simp: prefix_def)
      have i: "?S (r @ ?x) = ?S r @ ?S ?x"
        by (rule ih) (simp add: p)
      have "?S (pre @ ?x) = ?S ('' src=\"//'' @ (r @ ?x))"
        by (simp only: p append_assoc)
      also have "\<dots> = '' src=\"https://'' @ ?S (r @ ?x)"
        by (rule spec_at_proto)
      also have "\<dots> = ('' src=\"https://'' @ ?S r) @ ?S ?x"
        by (simp only: i append_assoc)
      also have "'' src=\"https://'' @ ?S r = ?S pre"
        unfolding p by (rule spec_at_proto [symmetric])
      finally show ?thesis .
    next
      case root
      then obtain r where p: "pre = '' src=\"/'' @ r" by (auto simp: prefix_def)
      from root(1) have r: "\<not> prefix ''/'' r" by (simp add: p)
      then have r': "\<not> prefix ''/'' (r @ ?x)" by (cases r) simp_all
      have i: "?S (r @ ?x) = ?S r @ ?S ?x"
        by (rule ih) (simp add: p)
      have "?S (pre @ ?x) = ?S ('' src=\"/'' @ (r @ ?x))"
        by (simp only: p append_assoc)
      also have "\<dots> = ('' src=\"'' @ base @ ''/'') @ ?S (r @ ?x)"
        using r' by (rule spec_at_root)
      also have "\<dots> = (('' src=\"'' @ base @ ''/'') @ ?S r) @ ?S ?x"
        by (simp only: i append_assoc)
      also have "('' src=\"'' @ base @ ''/'') @ ?S r = ?S pre"
        unfolding p using r by (rule spec_at_root [symmetric])
      finally show ?thesis .
    next
      case other
      have ne: "c # cs \<noteq> []" by simp
      have o1: "\<not> prefix '' src=\"//'' (c # cs)"
        using other(1) unfolding Cons .
      have o2: "\<not> prefix '' src=\"/'' (c # cs)"
        using other(2) unfolding Cons .
      have "\<not> prefix '' src=\"//'' ((c # cs) @ ?x)"
        using o1 by (subst prefix_append_separator [OF _ ne]) simp_all
      then have a1: "\<not> prefix '' src=\"//'' (c # (cs @ ?x))"
        unfolding append_Cons .
      have "\<not> prefix '' src=\"/'' ((c # cs) @ ?x)"
        using o2 by (subst prefix_append_separator [OF _ ne]) simp_all
      then have a2: "\<not> prefix '' src=\"/'' (c # (cs @ ?x))"
        unfolding append_Cons .
      have i: "?S (cs @ ?x) = ?S cs @ ?S ?x"
        by (rule ih) (simp add: Cons)
      have "?S (pre @ ?x) = ?S (c # (cs @ ?x))"
        by (simp only: Cons append_Cons)
      also have "\<dots> = c # ?S (cs @ ?x)"
        using a1 a2 by (rule spec_elsewhere)
      also have "\<dots> = (c # ?S cs) @ ?S ?x"
        by (simp only: i append_Cons)
      also have "c # ?S cs = ?S pre"
        unfolding Cons using o1 o2 by (rule spec_elsewhere [symmetric])
      finally show ?thesis .
    qed
  qed
qed

lemma spec_over_https:
  "rewrite_urls_spec base ('' src=\"https://'' @ post) = '' src=\"https://'' @ rewrite_urls_spec base post"
  by (simp add: rewrite_urls_spec.simps)

lemma spec_keeps_absolute:
  "rewrite_urls_spec base (pre @ '' src=\"https://'' @ post) =
     rewrite_urls_spec base pre @ '' src=\"https://'' @ rewrite_urls_spec base post"
proof -
  have "rewrite_urls_spec base (pre @ CHR '' '' # (''src=\"https://'' @ post)) =
      rewrite_urls_spec base pre @ rewrite_urls_spec base (CHR '' '' # (''src=\"https://'' @ post))"
    by (rule spec_split_at_space)
  moreover have "rewrite_urls_spec base (CHR '' '' # (''src=\"https://'' @ post)) =
      '' src=\"https://'' @ rewrite_urls_spec base post"
    using spec_over_https [of base post] by simp
  ultimately show ?thesis by simp
qed

subsection \<open>Stripping characters\<close>

lemma set_strip: "set (strip s chars) \<subseteq> set s"
proof -
  let ?P = "\<lambda>c. c \<in> set chars"
  have "set (strip s chars) = set (dropWhile ?P (rev (dropWhile ?P s)))"
    by (simp add: strip_def)
  also have "\<dots> \<subseteq> set (rev (dropWhile ?P s))"
    by (meson set_dropWhileD subsetI)
  also have "\<dots> = set (dropWhile ?P s)"
    by simp
  also have "\<dots> \<subseteq> set s"
    by (meson set_dropWhileD subsetI)
  finally show ?thesis .
qed


lemma strip_last:
  assumes "strip s chars \<noteq> []"
  shows "last (strip s chars) \<notin> set chars"
proof -
  let ?P = "\<lambda>c. c \<in> set chars"
  define b where "b = dropWhile ?P (rev (dropWhile ?P s))"
  have st: "strip s chars = rev b"
    by (simp add: strip_def b_def)
  with assms have b: "b \<noteq> []" by simp
  then have "\<not> ?P (hd b)"
    unfolding b_def by (rule hd_dropWhile)
  moreover have "last (rev b) = hd b"
    using b by (simp add: last_rev)
  ultimately show ?thesis unfolding st by simp
qed

lemma strip_hd:
  assumes "strip s chars \<noteq> []"
  shows "hd (strip s chars) \<notin> set chars"
proof -
  let ?P = "\<lambda>c. c \<in> set chars"
  define a where "a = dropWhile ?P s"
  define b where "b = dropWhile ?P (rev a)"
  have st: "strip s chars = rev b"
    by (simp add: strip_def a_def b_def)
  with assms have b: "b \<noteq> []" by simp
  have a: "a \<noteq> []"
  proof
    assume "a = []"
    then have "b = []" by (simp add: b_def)
    with b show False by contradiction
  qed
  have "rev a = takeWhile ?P (rev a) @ b"
    by (simp add: b_def)
  then have "last (rev a) = last (takeWhile ?P (rev a) @ b)"
    by (rule arg_cong)
  also have "\<dots> = last b"
    using b by (rule last_appendR)
  finally have "last b = hd a"
    using a by (simp add: last_rev)
  moreover have "\<not> ?P (hd a)"
    using a unfolding a_def by (rule hd_dropWhile)
  moreover have "hd (rev b) = last b"
    using b by (simp add: hd_rev)
  ultimately show ?thesis unfolding st by simp
qed

lemma strip_Nil: "strip [] chars = []"
  by (simp add: strip_def)

subsection \<open>The shape of the filename\<close>

text \<open>
  Whatever \<open>clean_string\<close> and \<open>titlecase\<close> do, the name that \<open>get_filename\<close>
  returns is a transliterated stem followed by \<^verbatim>\<open>.pdf\<close>. It is ASCII when the entries of
  the transliteration table are. The stem is the second cleaning's result without its
  leading and trailing underscores when that result is ASCII already; otherwise the
  transliteration, which runs after the strip, decides how the stem begins and ends.
\<close>

lemma unidecode_is_ascii:
  assumes "\<forall>c. \<forall>d \<in> set (table c). is_ascii d"
  shows "\<forall>d \<in> set (unidecode table s). is_ascii d"
  using assms by (auto simp: unidecode_def)

lemma get_filename_shape:
  assumes "pages w abs_url = Inr request_text"
    and "doc_title lb request_text = Inr title"
  defines "cleaned \<equiv> clean_string lb (replace (titlecase lb (clean_string lb title)) '' '' ''_'')"
  shows "\<exists>stem. fst (get_filename lb abs_url w) = Inr (stem @ ''.pdf'') \<and>
           stem = unidecode (unidecode_table lb) (strip cleaned ''_'') \<and>
           ((\<forall>c. \<forall>d \<in> set (unidecode_table lb c). is_ascii d) \<longrightarrow>
              (\<forall>d \<in> set (stem @ ''.pdf''). is_ascii d)) \<and>
           ((\<forall>c \<in> set cleaned. is_ascii c) \<longrightarrow>
              stem = strip cleaned ''_'' \<and> set stem \<subseteq> set cleaned \<and>
              (stem \<noteq> [] \<longrightarrow> hd stem \<noteq> CHR ''_'' \<and> last stem \<noteq> CHR ''_''))"
proof -
  let ?t = "unidecode_table lb"
  let ?stem = "unidecode ?t (strip cleaned ''_'')"
  have name: "fst (get_filename lb abs_url w) = Inr (?stem @ ''.pdf'')"
    by (simp add: get_filename_run [OF assms(1,2)] Let_def cleaned_def unidecode_append
        unidecode_pdf)
  have ascii: "(\<forall>c. \<forall>d \<in> set (?t c). is_ascii d) \<longrightarrow> (\<forall>d \<in> set (?stem @ ''.pdf''). is_ascii d)"
  proof
    assume "\<forall>c. \<forall>d \<in> set (?t c). is_ascii d"
    then have "\<forall>d \<in> set ?stem. is_ascii d" by (rule unidecode_is_ascii)
    then show "\<forall>d \<in> set (?stem @ ''.pdf''). is_ascii d"
      by (auto simp: is_ascii_def)
  qed
  have clean: "(\<forall>c \<in> set cleaned. is_ascii c) \<longrightarrow>
      ?stem = strip cleaned ''_'' \<and> set ?stem \<subseteq> set cleaned \<and>
      (?stem \<noteq> [] \<longrightarrow> hd ?stem \<noteq> CHR ''_'' \<and> last ?stem \<noteq> CHR ''_'')"
  proof
    assume a: "\<forall>c \<in> set cleaned. is_ascii c"
    have sub: "set (strip cleaned ''_'') \<subseteq> set cleaned" by (rule set_strip)
    with a have "\<forall>c \<in> set (strip cleaned ''_''). is_ascii c" by blast
    then have eq: "?stem = strip cleaned ''_''" by (rule unidecode_ascii)
    have "strip cleaned ''_'' \<noteq> [] \<longrightarrow>
        hd (strip cleaned ''_'') \<noteq> CHR ''_'' \<and> last (strip cleaned ''_'') \<noteq> CHR ''_''"
      using strip_hd [of cleaned "''_''"] strip_last [of cleaned "''_''"] by auto
    with eq sub show "?stem = strip cleaned ''_'' \<and> set ?stem \<subseteq> set cleaned \<and>
      (?stem \<noteq> [] \<longrightarrow> hd ?stem \<noteq> CHR ''_'' \<and> last ?stem \<noteq> CHR ''_'')"
      by simp
  qed
  from name ascii clean show ?thesis by blast
qed

subsection \<open>The order of the two replacements\<close>

text \<open>
  Applied the other way round, the root-relative rule would also catch the first
  slash of a protocol-relative URL and prefix it with the base.
\<close>

lemma order_matters:
  "replace (replace ''<img src=\"//cdn.org/b.png\">'' '' src=\"/'' '' src=\"https://site.com/'')
      '' src=\"//'' '' src=\"https://'' = ''<img src=\"https://site.com//cdn.org/b.png\">''"
  by (simp add: replace.simps)

subsection \<open>The claims\<close>

text \<open>
  Claim C1: when the parsed URL lacks the scheme, the network location or the path,
  \<open>validate\<close> returns false and leaves the world as it was, so no content-type lookup
  is made; when all three are present it makes exactly one lookup, returns false
  when the lookup gives \<open>None\<close>, and otherwise returns whether the content type
  starts with \<^verbatim>\<open>text/html\<close>.
\<close>

theorem validate_result:
  assumes "urlparse lb src = Inr parsed"
  shows "(scheme parsed = [] \<or> netloc parsed = [] \<or> path parsed = [] \<longrightarrow>
            validate lb src w = (Inr False, w) \<and>
            content_type_requests (new_events w (snd (validate lb src w))) = []) \<and>
         (scheme parsed \<noteq> [] \<and> netloc parsed \<noteq> [] \<and> path parsed \<noteq> [] \<longrightarrow>
            fst (validate lb src w) =
              Inr (case content_types w src of None \<Rightarrow> False
                   | Some ct \<Rightarrow> startswith ct ''text/html'') \<and>
            snd (validate lb src w) = w\<lparr>trace := trace w @ [ContentTypeRequest src]\<rparr>)"
  using assms
  by (auto simp: validate_def prog_defs new_events_def split: option.splits)

theorem validate_result_witness:
  "validate sample_libs ''site.com/post'' sample_world = (Inr False, sample_world) \<and>
   fst (validate sample_libs ''https://site.com/post'' sample_world) = Inr True \<and>
   trace (snd (validate sample_libs ''https://site.com/post'' sample_world)) =
     [ContentTypeRequest ''https://site.com/post'']"
  using validate_result [of sample_libs "''site.com/post''"
      "\<lparr>scheme = [], netloc = [], path = ''site.com/post''\<rparr>" sample_world]
    validate_result [of sample_libs "''https://site.com/post''"
      "\<lparr>scheme = ''https'', netloc = ''site.com'', path = ''/post''\<rparr>" sample_world]
  by (simp add: sample_defs startswith_def)

text \<open>
  Claim C2: in a run of \<open>retrieve_pdf\<close> that reaches the rewriting, whatever is
  handed to the PDF renderer is the markdown renderer's output after
  \<open>fix_relative_urls\<close> with the base \<^verbatim>\<open>scheme://netloc\<close> of the source URL, and it is
  handed over unless debug is set and the write of the debug dump fails. That
  function replaces \<^verbatim>\<open> src="//\<close> by \<^verbatim>\<open> src="https://\<close> first and \<^verbatim>\<open> src="/\<close> by
  \<^verbatim>\<open> src="{base}/\<close> afterwards. The result is the single rewriting of the
  specification, in which every occurrence is rewritten once by the rule that fits
  it, so no URL gets two prefixes. An occurrence of \<^verbatim>\<open> src="https://\<close> stays as it is,
  and the text before and after it is rewritten as it would be alone.
\<close>

theorem retrieve_pdf_rewrites_urls:
  assumes "pages w pdf_url = Inr request_text"
    and "doc_title lb request_text = Inr title"
    and "doc_summary lb request_text = Inr raw_html"
    and "h2t_handle lb raw_html = Inr text"
    and "urlsplit lb pdf_url = Inr parts"
    and "markdown lb (''# '' @ title @ ''\<newline>\<newline>'' @ text) = Inr html"
  shows "set (render_inputs (new_events w (snd (retrieve_pdf lb debug pdf_url filename w)))) \<subseteq>
           {fix_relative_urls (scheme parts @ ''://'' @ netloc parts) html} \<and>
         (\<not> debug \<or>
          disk w ''./paper.html''
            (Text (fix_relative_urls (scheme parts @ ''://'' @ netloc parts) html)) = WriteOk \<longrightarrow>
            render_inputs (new_events w (snd (retrieve_pdf lb debug pdf_url filename w))) =
              [fix_relative_urls (scheme parts @ ''://'' @ netloc parts) html]) \<and>
         fix_relative_urls base h =
           replace (replace h '' src=\"//'' '' src=\"https://'')
             '' src=\"/'' ('' src=\"'' @ base @ ''/'') \<and>
         fix_relative_urls base h = rewrite_urls_spec base h \<and>
         fix_relative_urls base (pre @ '' src=\"https://'' @ post) =
           fix_relative_urls base pre @ '' src=\"https://'' @ fix_relative_urls base post"
proof (intro conjI)
  show "set (render_inputs (new_events w (snd (retrieve_pdf lb debug pdf_url filename w)))) \<subseteq>
      {fix_relative_urls (scheme parts @ ''://'' @ netloc parts) html}"
    using assms(6)
    by (auto simp: retrieve_pdf_run [OF assms(1-5)] Let_def new_events_def
        split: sum.splits write_outcome.splits)
  show "\<not> debug \<or>
      disk w ''./paper.html''
        (Text (fix_relative_urls (scheme parts @ ''://'' @ netloc parts) html)) = WriteOk \<longrightarrow>
      render_inputs (new_events w (snd (retrieve_pdf lb debug pdf_url filename w))) =
        [fix_relative_urls (scheme parts @ ''://'' @ netloc parts) html]"
    using assms(6)
    by (auto simp: retrieve_pdf_run [OF assms(1-5)] Let_def new_events_def
        split: sum.splits write_outcome.splits)
  show "fix_relative_urls base h =
      replace (replace h '' src=\"//'' '' src=\"https://'') '' src=\"/'' ('' src=\"'' @ base @ ''/'')"
    by (simp add: fix_relative_urls_def)
  show "fix_relative_urls base h = rewrite_urls_spec base h"
    by (rule fix_relative_urls_spec)
  show "fix_relative_urls base (pre @ '' src=\"https://'' @ post) =
      fix_relative_urls base pre @ '' src=\"https://'' @ fix_relative_urls base post"
    by (simp only: fix_relative_urls_spec spec_keeps_absolute)
qed

theorem retrieve_pdf_rewrites_urls_witness:
  "render_inputs (new_events sample_world
      (snd (retrieve_pdf sample_libs False sample_url ''paper.pdf'' sample_world))) =
     [''<p><img src=\"https://site.com/a.png\" /> <img src=\"https://cdn.org/b.png\" /></p>''] \<and>
   rewrite_urls_spec ''https://site.com'' sample_html =
     ''<p><img src=\"https://site.com/a.png\" /> <img src=\"https://cdn.org/b.png\" /></p>'' \<and>
   fix_relative_urls ''https://site.com'' (''<img'' @ '' src=\"https://'' @ ''x.org/c.png\">'') =
     ''<img src=\"https://x.org/c.png\">''"
  using retrieve_pdf_rewrites_urls [of sample_world sample_url "''<html>...</html>''" sample_libs
      "''Hello World''" "''<div>Body</div>''" "''Body''"
      "\<lparr>scheme = ''https'', netloc = ''site.com'', path = ''/post''\<rparr>" sample_html
      False "''paper.pdf''" "''https://site.com''" sample_html "''<img''" "''x.org/c.png\">''"]
  by (simp add: sample_defs fix_relative_urls_def replace.simps)

text \<open>
  Claim C3: the resource fetcher hands to the default fetcher: \<^verbatim>\<open>https:\<close> followed by
  the URL when the URL starts with \<^verbatim>\<open>//\<close>; otherwise, when the URL is \<^verbatim>\<open>file:///\<close>
  followed by some rest, \<^verbatim>\<open>https://\<close> followed by that rest; otherwise the URL as it
  is.
\<close>

theorem my_fetcher_rewrites:
  "(startswith url ''//'' \<longrightarrow> my_fetcher f url = f (''https:'' @ url)) \<and>
   (startswith url ''file:///'' \<longrightarrow>
      \<not> startswith url ''//'' \<and>
      (\<exists>rest. url = ''file:///'' @ rest \<and> my_fetcher f url = f (''https://'' @ rest))) \<and>
   (\<not> startswith url ''//'' \<and> \<not> startswith url ''file:///'' \<longrightarrow> my_fetcher f url = f url)"
proof (intro conjI impI)
  assume "startswith url ''//''"
  then show "my_fetcher f url = f (''https:'' @ url)"
    by (simp add: my_fetcher_def)
next
  assume a: "startswith url ''file:///''"
  then obtain rest where r: "url = ''file:///'' @ rest"
    by (auto simp: startswith_def prefix_def)
  then show "\<not> startswith url ''//''"
    by (simp add: startswith_def)
  have "my_fetcher f url = f (''https://'' @ rest)"
    by (simp add: my_fetcher_def startswith_def r)
  with r show "\<exists>rest. url = ''file:///'' @ rest \<and> my_fetcher f url = f (''https://'' @ rest)"
    by blast
next
  assume "\<not> startswith url ''//'' \<and> \<not> startswith url ''file:///''"
  then show "my_fetcher f url = f url"
    by (simp add: my_fetcher_def)
qed

theorem my_fetcher_rewrites_witness:
  "my_fetcher (\<lambda>u. u) ''//cdn.example.com/img.png'' = ''https://cdn.example.com/img.png'' \<and>
   my_fetcher (\<lambda>u. u) ''file:///etc/passwd'' = ''https://etc/passwd'' \<and>
   my_fetcher (\<lambda>u. u) ''http://site.com/a.png'' = ''http://site.com/a.png''"
  using my_fetcher_rewrites [of "''//cdn.example.com/img.png''" "\<lambda>u. u"]
    my_fetcher_rewrites [of "''file:///etc/passwd''" "\<lambda>u. u"]
    my_fetcher_rewrites [of "''http://site.com/a.png''" "\<lambda>u. u"]
  by (simp add: startswith_def)

text \<open>
  Claim C5: once the page is fetched and a title is extracted, \<open>get_filename\<close>
  returns a name, whatever the title is; when the title is empty, and cleaning and
  title-casing the empty string give the empty string, the name is \<^verbatim>\<open>.pdf\<close>.
\<close>

theorem get_filename_never_fails:
  assumes "pages w abs_url = Inr request_text"
    and "doc_title lb request_text = Inr title"
  shows "(\<exists>name. fst (get_filename lb abs_url w) = Inr name) \<and>
         (title = [] \<and> clean_string lb [] = [] \<and> titlecase lb [] = [] \<longrightarrow>
            fst (get_filename lb abs_url w) = Inr ''.pdf'')"
proof (intro conjI impI)
  show "\<exists>name. fst (get_filename lb abs_url w) = Inr name"
    by (simp add: get_filename_run [OF assms] Let_def)
next
  assume a: "title = [] \<and> clean_string lb [] = [] \<and> titlecase lb [] = []"
  have "strip (clean_string lb (replace (titlecase lb (clean_string lb title)) '' '' ''_'')) ''_'' = []"
    using a by (simp add: replace.simps strip_def)
  then show "fst (get_filename lb abs_url w) = Inr ''.pdf''"
    using unidecode_pdf [of "unidecode_table lb"]
    by (simp add: get_filename_run [OF assms] Let_def)
qed

theorem get_filename_never_fails_witness:
  "(\<exists>name. fst (get_filename (sample_libs\<lparr>doc_title := \<lambda>page. Inr []\<rparr>) sample_url sample_world)
       = Inr name) \<and>
   fst (get_filename (sample_libs\<lparr>doc_title := \<lambda>page. Inr []\<rparr>) sample_url sample_world)
     = Inr ''.pdf''"
  using get_filename_never_fails [of sample_world sample_url "''<html>...</html>''"
      "sample_libs\<lparr>doc_title := \<lambda>page. Inr []\<rparr>" "[]"]
  by (simp add: sample_defs)

text \<open>
  Claim C6: in a run of \<open>retrieve_pdf\<close> in which the fetch, the extraction, the
  conversion to text and the split of the URL succeed, the markdown renderer is
  called once, with \<^verbatim>\<open># \<close> followed by the title, two newlines and the text.
\<close>

theorem retrieve_pdf_article:
  assumes "pages w pdf_url = Inr request_text"
    and "doc_title lb request_text = Inr title"
    and "doc_summary lb request_text = Inr raw_html"
    and "h2t_handle lb raw_html = Inr text"
    and "urlsplit lb pdf_url = Inr parts"
  shows "markdown_inputs (new_events w (snd (retrieve_pdf lb debug pdf_url filename w))) =
           [''# '' @ title @ ''\<newline>\<newline>'' @ text]"
  by (simp add: retrieve_pdf_run [OF assms] Let_def new_events_def
      split: sum.splits write_outcome.splits)

theorem retrieve_pdf_article_witness:
  "markdown_inputs (new_events sample_world
      (snd (retrieve_pdf sample_libs True sample_url ''paper.pdf'' sample_world))) =
     [''# Hello World\<newline>\<newline>Body'']"
  using retrieve_pdf_article [of sample_world sample_url "''<html>...</html>''" sample_libs
      "''Hello World''" "''<div>Body</div>''" "''Body''"
      "\<lparr>scheme = ''https'', netloc = ''site.com'', path = ''/post''\<rparr>" True "''paper.pdf''"]
  by (simp add: sample_defs)

text \<open>
  Claim C7: for every URL, both components of the pair that \<open>get_abs_pdf_urls\<close>
  returns are the URL itself.
\<close>

theorem get_abs_pdf_urls_identity:
  "fst (get_abs_pdf_urls url) = url \<and> snd (get_abs_pdf_urls url) = url"
  by (simp add: get_abs_pdf_urls_def)

text \<open>
  Claim C8, as amended: when a stage of \<open>retrieve_pdf\<close> fails, the call fails with
  that stage's error, and the files are then as follows. A failure of the fetch, of
  the extraction, of the conversion to text, of the split of the URL or of the
  conversion to HTML leaves every file as it was; so does a debug dump that cannot
  be opened. A debug dump that breaks off leaves the part written in the file that
  \<^verbatim>\<open>./paper.html\<close> names. A failure of the rendering, or an output file that cannot be
  opened, leaves the files as they were but for the complete debug dump when debug
  is set. A write of the PDF that breaks off leaves, besides that, the part written
  in the output file. Nothing is removed or restored. Hence after a failed call the
  output file holds what it held before, so no file if there was none, provided
  that the write of the PDF did not break off and that, when debug is set, the
  output path does not name the file of the debug dump.
\<close>

theorem retrieve_pdf_failure:
  "let r = retrieve_pdf lb debug pdf_url filename w;
       article = ''# '' @ title @ ''\<newline>\<newline>'' @ text;
       html_article = fix_relative_urls (scheme parts @ ''://'' @ netloc parts) html;
       dumped = (if debug then (files w)(resolve w ''./paper.html'' := Some (Text html_article))
                 else files w)
   in (pages w pdf_url = Inl e \<longrightarrow> fst r = Inl e \<and> files (snd r) = files w) \<and>
      (pages w pdf_url = Inr request_text \<longrightarrow>
        (doc_title lb request_text = Inl e \<longrightarrow> fst r = Inl e \<and> files (snd r) = files w) \<and>
        (doc_title lb request_text = Inr title \<longrightarrow>
          (doc_summary lb request_text = Inl e \<longrightarrow> fst r = Inl e \<and> files (snd r) = files w) \<and>
          (doc_summary lb request_text = Inr raw_html \<longrightarrow>
            (h2t_handle lb raw_html = Inl e \<longrightarrow> fst r = Inl e \<and> files (snd r) = files w) \<and>
            (h2t_handle lb raw_html = Inr text \<longrightarrow>
              (urlsplit lb pdf_url = Inl e \<longrightarrow> fst r = Inl e \<and> files (snd r) = files w) \<and>
              (urlsplit lb pdf_url = Inr parts \<longrightarrow>
                (markdown lb article = Inl e \<longrightarrow> fst r = Inl e \<and> files (snd r) = files w) \<and>
                (markdown lb article = Inr html \<longrightarrow>
                  (debug \<and> disk w ''./paper.html'' (Text html_article) = OpenFails e \<longrightarrow>
                     fst r = Inl e \<and> files (snd r) = files w) \<and>
                  (debug \<and> disk w ''./paper.html'' (Text html_article) = WriteFails e n \<longrightarrow>
                     fst r = Inl e \<and>
                     files (snd r) =
                       (files w)(resolve w ''./paper.html'' := Some (Text (take n html_article)))) \<and>
                  (\<not> debug \<or> disk w ''./paper.html'' (Text html_article) = WriteOk \<longrightarrow>
                    (render lb (my_fetcher (resources w)) html_article = Inl e \<longrightarrow>
                       fst r = Inl e \<and> files (snd r) = dumped) \<and>
                    (render lb (my_fetcher (resources w)) html_article = Inr pdf \<longrightarrow>
                      (disk w filename (Bytes pdf) = OpenFails e \<longrightarrow>
                         fst r = Inl e \<and> files (snd r) = dumped) \<and>
                      (disk w filename (Bytes pdf) = WriteFails e n \<longrightarrow>
                         fst r = Inl e \<and>
                         files (snd r) =
                           dumped(resolve w filename := Some (Bytes (take n pdf)))))))))))) \<and>
      (fst r = Inl e \<and> (\<not> debug \<or> resolve w filename \<noteq> resolve w ''./paper.html'') \<and>
       (\<forall>c err k. disk w filename c \<noteq> WriteFails err k) \<longrightarrow>
         files (snd r) (resolve w filename) = files w (resolve w filename))"
proof -
  let ?r = "retrieve_pdf lb debug pdf_url filename w"
  have early: "pages w pdf_url = Inl e \<longrightarrow> fst ?r = Inl e \<and> files (snd ?r) = files w"
    by (simp add: retrieve_pdf_early_failure(1))
  have frame: "fst ?r = Inl e \<and> (\<not> debug \<or> resolve w filename \<noteq> resolve w ''./paper.html'') \<and>
       (\<forall>c err k. disk w filename c \<noteq> WriteFails err k) \<longrightarrow>
         files (snd ?r) (resolve w filename) = files w (resolve w filename)"
    using retrieve_pdf_output_on_failure [of lb debug pdf_url filename w e] by blast
  have stages: "pages w pdf_url = Inr request_text \<longrightarrow>
        (doc_title lb request_text = Inl e \<longrightarrow> fst ?r = Inl e \<and> files (snd ?r) = files w) \<and>
        (doc_title lb request_text = Inr title \<longrightarrow>
          (doc_summary lb request_text = Inl e \<longrightarrow> fst ?r = Inl e \<and> files (snd ?r) = files w) \<and>
          (doc_summary lb request_text = Inr raw_html \<longrightarrow>
            (h2t_handle lb raw_html = Inl e \<longrightarrow> fst ?r = Inl e \<and> files (snd ?r) = files w) \<and>
            (h2t_handle lb raw_html = Inr text \<longrightarrow>
              (urlsplit lb pdf_url = Inl e \<longrightarrow> fst ?r = Inl e \<and> files (snd ?r) = files w))))"
    by (simp add: retrieve_pdf_def prog_defs Let_def)
  have late: "pages w pdf_url = Inr request_text \<and> doc_title lb request_text = Inr title \<and>
      doc_summary lb request_text = Inr raw_html \<and> h2t_handle lb raw_html = Inr text \<and>
      urlsplit lb pdf_url = Inr parts \<longrightarrow>
        (let article = ''# '' @ title @ ''\<newline>\<newline>'' @ text;
             html_article = fix_relative_urls (scheme parts @ ''://'' @ netloc parts) html;
             dumped = (if debug then (files w)(resolve w ''./paper.html'' := Some (Text html_article))
                       else files w)
         in (markdown lb article = Inl e \<longrightarrow> fst ?r = Inl e \<and> files (snd ?r) = files w) \<and>
            (markdown lb article = Inr html \<longrightarrow>
              (debug \<and> disk w ''./paper.html'' (Text html_article) = OpenFails e \<longrightarrow>
                 fst ?r = Inl e \<and> files (snd ?r) = files w) \<and>
              (debug \<and> disk w ''./paper.html'' (Text html_article) = WriteFails e n \<longrightarrow>
                 fst ?r = Inl e \<and>
                 files (snd ?r) =
                   (files w)(resolve w ''./paper.html'' := Some (Text (take n html_article)))) \<and>
              (\<not> debug \<or> disk w ''./paper.html'' (Text html_article) = WriteOk \<longrightarrow>
                (render lb (my_fetcher (resources w)) html_article = Inl e \<longrightarrow>
                   fst ?r = Inl e \<and> files (snd ?r) = dumped) \<and>
                (render lb (my_fetcher (resources w)) html_article = Inr pdf \<longrightarrow>
                  (disk w filename (Bytes pdf) = OpenFails e \<longrightarrow>
                     fst ?r = Inl e \<and> files (snd ?r) = dumped) \<and>
                  (disk w filename (Bytes pdf) = WriteFails e n \<longrightarrow>
                     fst ?r = Inl e \<and>
                     files (snd ?r) =
                       dumped(resolve w filename := Some (Bytes (take n pdf))))))))"
  proof
    assume a: "pages w pdf_url = Inr request_text \<and> doc_title lb request_text = Inr title \<and>
      doc_summary lb request_text = Inr raw_html \<and> h2t_handle lb raw_html = Inr text \<and>
      urlsplit lb pdf_url = Inr parts"
    then have run: "pages w pdf_url = Inr request_text" "doc_title lb request_text = Inr title"
      "doc_summary lb request_text = Inr raw_html" "h2t_handle lb raw_html = Inr text"
      "urlsplit lb pdf_url = Inr parts"
      by simp_all
    show "let article = ''# '' @ title @ ''\<newline>\<newline>'' @ text;
             html_article = fix_relative_urls (scheme parts @ ''://'' @ netloc parts) html;
             dumped = (if debug then (files w)(resolve w ''./paper.html'' := Some (Text html_article))
                       else files w)
         in (markdown lb article = Inl e \<longrightarrow> fst ?r = Inl e \<and> files (snd ?r) = files w) \<and>
            (markdown lb article = Inr html \<longrightarrow>
              (debug \<and> disk w ''./paper.html'' (Text html_article) = OpenFails e \<longrightarrow>
                 fst ?r = Inl e \<and> files (snd ?r) = files w) \<and>
              (debug \<and> disk w ''./paper.html'' (Text html_article) = WriteFails e n \<longrightarrow>
                 fst ?r = Inl e \<and>
                 files (snd ?r) =
                   (files w)(resolve w ''./paper.html'' := Some (Text (take n html_article)))) \<and>
              (\<not> debug \<or> disk w ''./paper.html'' (Text html_article) = WriteOk \<longrightarrow>
                (render lb (my_fetcher (resources w)) html_article = Inl e \<longrightarrow>
                   fst ?r = Inl e \<and> files (snd ?r) = dumped) \<and>
                (render lb (my_fetcher (resources w)) html_article = Inr pdf \<longrightarrow>
                  (disk w filename (Bytes pdf) = OpenFails e \<longrightarrow>
                     fst ?r = Inl e \<and> files (snd ?r) = dumped) \<and>
                  (disk w filename (Bytes pdf) = WriteFails e n \<longrightarrow>
                     fst ?r = Inl e \<and>
                     files (snd ?r) =
                       dumped(resolve w filename := Some (Bytes (take n pdf)))))))"
      by (auto simp: retrieve_pdf_run [OF run] Let_def)
  qed
  from early stages late frame show ?thesis
    unfolding Let_def by blast
qed

theorem retrieve_pdf_failure_witness:
  "fst (retrieve_pdf (sample_libs\<lparr>render := \<lambda>fetcher html. Inl RenderFailed\<rparr>) True sample_url
      ''out/paper.pdf'' sample_world) = Inl RenderFailed \<and>
   files (snd (retrieve_pdf (sample_libs\<lparr>render := \<lambda>fetcher html. Inl RenderFailed\<rparr>) True sample_url
      ''out/paper.pdf'' sample_world)) =
     (files sample_world)(''paper.html'' := Some (Text
        ''<p><img src=\"https://site.com/a.png\" /> <img src=\"https://cdn.org/b.png\" /></p>'')) \<and>
   files (snd (retrieve_pdf (sample_libs\<lparr>render := \<lambda>fetcher html. Inl RenderFailed\<rparr>) True sample_url
      ''out/paper.pdf'' sample_world)) ''out/paper.pdf'' = None"
  using retrieve_pdf_failure [of "sample_libs\<lparr>render := \<lambda>fetcher html. Inl RenderFailed\<rparr>" True
      sample_url "''out/paper.pdf''" sample_world "''Hello World''" "''Body''"
      "\<lparr>scheme = ''https'', netloc = ''site.com'', path = ''/post''\<rparr>" sample_html
      RenderFailed "''<html>...</html>''" "''<div>Body</div>''" 0 "[]"]
  by (simp add: sample_defs fix_relative_urls_def replace.simps Let_def)

text \<open>
  Without these two provisos the claim fails, since \<open>retrieve_pdf\<close> writes
  directly into the files and never cleans up. With debug set and \<^verbatim>\<open>paper.html\<close> as the output path,
  which names the file of the debug dump, a failed rendering leaves the dumped HTML
  in the output file, where no file was before. And a write of the PDF that breaks
  off after four bytes leaves these four bytes in the output file.
\<close>

theorem retrieve_pdf_failure_counterexample:
  "fst (retrieve_pdf (sample_libs\<lparr>render := \<lambda>fetcher html. Inl RenderFailed\<rparr>) True sample_url
      ''paper.html'' sample_world) = Inl RenderFailed \<and>
   files sample_world (resolve sample_world ''paper.html'') = None \<and>
   files (snd (retrieve_pdf (sample_libs\<lparr>render := \<lambda>fetcher html. Inl RenderFailed\<rparr>) True sample_url
      ''paper.html'' sample_world)) (resolve sample_world ''paper.html'') =
     Some (Text ''<p><img src=\"https://site.com/a.png\" /> <img src=\"https://cdn.org/b.png\" /></p>'') \<and>
   fst (retrieve_pdf sample_libs False sample_url ''paper.pdf''
      (sample_world\<lparr>disk := \<lambda>p c. if p = ''paper.pdf'' then WriteFails IOFailed 4 else WriteOk\<rparr>))
     = Inl IOFailed \<and>
   files sample_world (resolve sample_world ''paper.pdf'') = None \<and>
   files (snd (retrieve_pdf sample_libs False sample_url ''paper.pdf''
      (sample_world\<lparr>disk := \<lambda>p c. if p = ''paper.pdf'' then WriteFails IOFailed 4 else WriteOk\<rparr>)))
      (resolve sample_world ''paper.pdf'') = Some (Bytes ''%PDF'')"
  by (simp add: retrieve_pdf_def prog_defs sample_defs fix_relative_urls_def replace.simps Let_def)

text \<open>
  Claim C9: in every run of \<open>retrieve_pdf\<close>, no file but the output file changes
  when debug is not set, and none but the output file and the file of
  \<^verbatim>\<open>./paper.html\<close> when it is set; what is put into a file is bytes at the caller's
  path or, with debug set, text at \<^verbatim>\<open>./paper.html\<close>. In a run that reaches the
  rewriting: without debug the rewritten HTML goes to the renderer and the only
  file written is the PDF at the caller's path; with debug, and the file system
  accepting the dump, the rewritten HTML is first written to \<^verbatim>\<open>./paper.html\<close> and
  then goes to the renderer; a dump that cannot be opened or that breaks off ends
  the run with its error before the renderer is called. So, where the file system
  accepts the dump, the rewritten HTML is written to \<^verbatim>\<open>./paper.html\<close> exactly when
  debug is set.
\<close>

theorem retrieve_pdf_file_writes:
  "let r = retrieve_pdf lb debug pdf_url filename w;
       article = ''# '' @ title @ ''\<newline>\<newline>'' @ text;
       html_article = fix_relative_urls (scheme parts @ ''://'' @ netloc parts) html;
       pdf_events =
         (case render lb (my_fetcher (resources w)) html_article of
            Inl err \<Rightarrow> []
          | Inr pdf \<Rightarrow>
              (case disk w filename (Bytes pdf) of
                 WriteOk \<Rightarrow> [FileWrite filename (Bytes pdf)]
               | OpenFails err \<Rightarrow> []
               | WriteFails err k \<Rightarrow> [FileWrite filename (Bytes (take k pdf))]));
       pdf_stored = (\<lambda>fs.
         (case render lb (my_fetcher (resources w)) html_article of
            Inl err \<Rightarrow> fs
          | Inr pdf \<Rightarrow>
              (case disk w filename (Bytes pdf) of
                 WriteOk \<Rightarrow> fs(resolve w filename := Some (Bytes pdf))
               | OpenFails err \<Rightarrow> fs
               | WriteFails err k \<Rightarrow> fs(resolve w filename := Some (Bytes (take k pdf))))))
   in (\<forall>q. q \<noteq> resolve w filename \<and> (\<not> debug \<or> q \<noteq> resolve w ''./paper.html'') \<longrightarrow>
         files (snd r) q = files w q) \<and>
      (\<forall>(p, c) \<in> set (file_writes (new_events w (snd r))).
         (debug \<and> p = ''./paper.html'' \<and> (\<exists>h. c = Text h)) \<or>
         (p = filename \<and> (\<exists>b. c = Bytes b))) \<and>
      (pages w pdf_url = Inr request_text \<and> doc_title lb request_text = Inr title \<and>
       doc_summary lb request_text = Inr raw_html \<and> h2t_handle lb raw_html = Inr text \<and>
       urlsplit lb pdf_url = Inr parts \<and> markdown lb article = Inr html \<longrightarrow>
         (\<not> debug \<longrightarrow>
            new_events w (snd r) =
              [PageRequest pdf_url, MarkdownInput article, RenderInput html_article] @ pdf_events \<and>
            files (snd r) = pdf_stored (files w)) \<and>
         (debug \<and> disk w ''./paper.html'' (Text html_article) = WriteOk \<longrightarrow>
            new_events w (snd r) =
              [PageRequest pdf_url, MarkdownInput article,
               FileWrite ''./paper.html'' (Text html_article), RenderInput html_article] @
              pdf_events \<and>
            files (snd r) =
              pdf_stored ((files w)(resolve w ''./paper.html'' := Some (Text html_article)))) \<and>
         (debug \<and> disk w ''./paper.html'' (Text html_article) = OpenFails e \<longrightarrow>
            fst r = Inl e \<and>
            new_events w (snd r) = [PageRequest pdf_url, MarkdownInput article] \<and>
            files (snd r) = files w) \<and>
         (debug \<and> disk w ''./paper.html'' (Text html_article) = WriteFails e n \<longrightarrow>
            fst r = Inl e \<and>
            new_events w (snd r) =
              [PageRequest pdf_url, MarkdownInput article,
               FileWrite ''./paper.html'' (Text (take n html_article))] \<and>
            files (snd r) =
              (files w)(resolve w ''./paper.html'' := Some (Text (take n html_article)))) \<and>
         (disk w ''./paper.html'' (Text html_article) = WriteOk \<longrightarrow>
            ((''./paper.html'', Text html_article) \<in> set (file_writes (new_events w (snd r))))
              = debug))"
proof -
  let ?r = "retrieve_pdf lb debug pdf_url filename w"
  have frame: "\<forall>q. q \<noteq> resolve w filename \<and> (\<not> debug \<or> q \<noteq> resolve w ''./paper.html'') \<longrightarrow>
      files (snd ?r) q = files w q"
    using retrieve_pdf_frame [of _ w filename debug lb pdf_url] by blast
  have written: "\<forall>(p, c) \<in> set (file_writes (new_events w (snd ?r))).
      (debug \<and> p = ''./paper.html'' \<and> (\<exists>h. c = Text h)) \<or> (p = filename \<and> (\<exists>b. c = Bytes b))"
    by (rule retrieve_pdf_written)
  show ?thesis
    unfolding Let_def
  proof (intro conjI impI)
    show "\<forall>q. q \<noteq> resolve w filename \<and> (\<not> debug \<or> q \<noteq> resolve w ''./paper.html'') \<longrightarrow>
      files (snd ?r) q = files w q"
      by (rule frame)
    show "\<forall>(p, c) \<in> set (file_writes (new_events w (snd ?r))).
      (debug \<and> p = ''./paper.html'' \<and> (\<exists>h. c = Text h)) \<or> (p = filename \<and> (\<exists>b. c = Bytes b))"
      by (rule written)
  qed (auto simp: retrieve_pdf_run [of w pdf_url request_text lb title raw_html "text" parts] Let_def new_events_def split: sum.splits write_outcome.splits)
qed

theorem retrieve_pdf_file_writes_witness:
  "file_writes (new_events sample_world
      (snd (retrieve_pdf sample_libs True sample_url ''paper.pdf'' sample_world))) =
     [(''./paper.html'',
       Text ''<p><img src=\"https://site.com/a.png\" /> <img src=\"https://cdn.org/b.png\" /></p>''),
      (''paper.pdf'', Bytes ''%PDF-1.7'')] \<and>
   files (snd (retrieve_pdf sample_libs True sample_url ''paper.pdf'' sample_world)) ''paper.html'' =
     Some (Text ''<p><img src=\"https://site.com/a.png\" /> <img src=\"https://cdn.org/b.png\" /></p>'') \<and>
   files (snd (retrieve_pdf sample_libs True sample_url ''paper.pdf'' sample_world)) ''paper.pdf'' =
     Some (Bytes ''%PDF-1.7'') \<and>
   file_writes (new_events sample_world
      (snd (retrieve_pdf sample_libs False sample_url ''paper.pdf'' sample_world))) =
     [(''paper.pdf'', Bytes ''%PDF-1.7'')] \<and>
   files (snd (retrieve_pdf sample_libs False sample_url ''paper.pdf'' sample_world)) ''paper.html'' =
     None \<and>
   files (snd (retrieve_pdf sample_libs False sample_url ''paper.pdf'' sample_world)) ''paper.pdf'' =
     Some (Bytes ''%PDF-1.7'')"
  using retrieve_pdf_file_writes [of sample_libs True sample_url "''paper.pdf''" sample_world
      "''Hello World''" "''Body''"
      "\<lparr>scheme = ''https'', netloc = ''site.com'', path = ''/post''\<rparr>" sample_html
      "''<html>...</html>''" "''<div>Body</div>''" IOFailed 0]
    retrieve_pdf_file_writes [of sample_libs False sample_url "''paper.pdf''" sample_world
      "''Hello World''" "''Body''"
      "\<lparr>scheme = ''https'', netloc = ''site.com'', path = ''/post''\<rparr>" sample_html
      "''<html>...</html>''" "''<div>Body</div>''" IOFailed 0]
  by (simp add: sample_defs fix_relative_urls_def replace.simps my_fetcher_def Let_def)

text \<open>
  Claim C10: when the fetch of \<open>get_filename\<close> and the fetch of \<open>retrieve_pdf\<close>
  return the same page text, both take the title from the same extraction: if it
  fails, both calls fail with its error; if it gives a title, that title is the one
  \<open>get_filename\<close> normalises into the name and the one \<open>retrieve_pdf\<close> puts into
  the heading of the article.
\<close>

theorem same_title_extraction:
  assumes "pages w1 url = Inr request_text"
    and "pages w2 url = Inr request_text"
  shows "(doc_title lb request_text = Inl e \<longrightarrow>
            fst (get_filename lb url w1) = Inl e \<and>
            fst (retrieve_pdf lb debug url filename w2) = Inl e) \<and>
         (doc_title lb request_text = Inr title \<longrightarrow>
            fst (get_filename lb url w1) =
              Inr (unidecode (unidecode_table lb)
                (strip (clean_string lb (replace (titlecase lb (clean_string lb title)) '' '' ''_'')) ''_''
                  @ ''.pdf'')) \<and>
            (doc_summary lb request_text = Inr raw_html \<and> h2t_handle lb raw_html = Inr text \<and>
             urlsplit lb url = Inr parts \<longrightarrow>
               markdown_inputs (new_events w2 (snd (retrieve_pdf lb debug url filename w2))) =
                 [''# '' @ title @ ''\<newline>\<newline>'' @ text]))"
proof (intro conjI impI)
  assume t: "doc_title lb request_text = Inl e"
  show "fst (get_filename lb url w1) = Inl e"
    using assms(1) t by (rule get_filename_early_failure(2))
  show "fst (retrieve_pdf lb debug url filename w2) = Inl e"
    by (simp add: retrieve_pdf_early_failure(2) [OF assms(2) t])
next
  assume t: "doc_title lb request_text = Inr title"
  show "fst (get_filename lb url w1) =
      Inr (unidecode (unidecode_table lb)
        (strip (clean_string lb (replace (titlecase lb (clean_string lb title)) '' '' ''_'')) ''_''
          @ ''.pdf''))"
    by (simp add: get_filename_run [OF assms(1) t] Let_def)
  assume r: "doc_summary lb request_text = Inr raw_html \<and> h2t_handle lb raw_html = Inr text \<and>
      urlsplit lb url = Inr parts"
  show "markdown_inputs (new_events w2 (snd (retrieve_pdf lb debug url filename w2))) =
      [''# '' @ title @ ''\<newline>\<newline>'' @ text]"
    using r
    by (simp add: retrieve_pdf_run [OF assms(2) t] Let_def new_events_def
        split: sum.splits write_outcome.splits)
qed

theorem same_title_extraction_witness:
  "fst (get_filename sample_libs sample_url sample_world) = Inr ''Hello_World.pdf'' \<and>
   markdown_inputs (new_events (sample_world\<lparr>trace := [LogInfo ''earlier'']\<rparr>)
      (snd (retrieve_pdf sample_libs False sample_url ''paper.pdf''
         (sample_world\<lparr>trace := [LogInfo ''earlier'']\<rparr>)))) =
     [''# Hello World\<newline>\<newline>Body'']"
  using same_title_extraction [of sample_world sample_url "''<html>...</html>''"
      "sample_world\<lparr>trace := [LogInfo ''earlier'']\<rparr>" sample_libs RequestFailed False "''paper.pdf''"
      "''Hello World''" "''<div>Body</div>''" "''Body''"
      "\<lparr>scheme = ''https'', netloc = ''site.com'', path = ''/post''\<rparr>"]
  by (simp add: sample_defs replace.simps strip_def unidecode_def is_ascii_def)

end
